theory Spec2Isabelle
  imports Complex_Main
begin

section \<open>Strings\<close>

text \<open>
  A JavaScript string is a sequence of UTF-16 code units. A code unit is modelled as a
  natural number (a code unit is below 65536; nothing below depends on that bound) and a
  string as a list of them. \<open>js\<close> turns a literal of ASCII characters into such a list.
\<close>

type_synonym jschar = nat

type_synonym jsstring = "jschar list"

definition js :: "string \<Rightarrow> jsstring" where
  "js s = map of_char s"

text \<open>
  The white space of \<open>String.prototype.trim\<close> and of \<open>\s\<close> in a regular expression: the
  code points WhiteSpace and LineTerminator of ECMAScript, that is tab, line feed,
  vertical tab, form feed, carriage return, space, no-break space, U+1680, U+2000 to
  U+200A, U+2028, U+2029, U+202F, U+205F, U+3000 and U+FEFF.
\<close>

definition is_space :: "jschar \<Rightarrow> bool" where
  "is_space c \<longleftrightarrow>
     c = 0x09 \<or> c = 0x0A \<or> c = 0x0B \<or> c = 0x0C \<or> c = 0x0D \<or> c = 0x20 \<or> c = 0xA0 \<or>
     c = 0x1680 \<or> (0x2000 \<le> c \<and> c \<le> 0x200A) \<or> c = 0x2028 \<or> c = 0x2029 \<or>
     c = 0x202F \<or> c = 0x205F \<or> c = 0x3000 \<or> c = 0xFEFF"

text \<open>\<open>s.trim()\<close>\<close>

definition trim :: "jsstring \<Rightarrow> jsstring" where
  "trim s = rev (dropWhile is_space (rev (dropWhile is_space s)))"

text \<open>
  \<open>s.split(/\s+/)\<close>: one separator for each maximal run of white space; the empty string
  gives one empty token, a leading or trailing run gives an empty first or last token.
\<close>

fun split_ws :: "jsstring \<Rightarrow> jsstring list" where
  "split_ws [] = [[]]"
| "split_ws (c # cs) =
     (if is_space c then
        (case cs of
           [] \<Rightarrow> [] # split_ws cs
         | d # _ \<Rightarrow> if is_space d then split_ws cs else [] # split_ws cs)
      else
        (case split_ws cs of
           [] \<Rightarrow> [[c]]
         | t # ts \<Rightarrow> (c # t) # ts))"

text \<open>\<open>s.split(sep)\<close> for a separator \<open>sep\<close> of one code unit.\<close>

fun split_on :: "jschar \<Rightarrow> jsstring \<Rightarrow> jsstring list" where
  "split_on sep [] = [[]]"
| "split_on sep (c # cs) =
     (if c = sep then [] # split_on sep cs
      else
        (case split_on sep cs of
           [] \<Rightarrow> [[c]]
         | t # ts \<Rightarrow> (c # t) # ts))"

text \<open>The code unit of \<open>|\<close>.\<close>

definition pipe :: jschar where
  "pipe = 0x7C"

text \<open>\<open>xs.join(sep)\<close>\<close>

fun join :: "jsstring \<Rightarrow> jsstring list \<Rightarrow> jsstring" where
  "join sep [] = []"
| "join sep [x] = x"
| "join sep (x # y # ys) = x @ sep @ join sep (y # ys)"

definition lower_ascii :: "jschar \<Rightarrow> jschar" where
  "lower_ascii c = (if 65 \<le> c \<and> c \<le> 90 then c + 32 else c)"

text \<open>
  \<open>s.toLowerCase()\<close>. On a string of ASCII code units it maps \<open>A\<close> to \<open>Z\<close> to \<open>a\<close> to
  \<open>z\<close> and leaves every other code unit. On a string that holds a code unit beyond ASCII
  the result is given by the Unicode case mapping of the JavaScript engine; that mapping
  is the parameter \<open>ul\<close>.
\<close>

definition toLowerCase :: "(jsstring \<Rightarrow> jsstring) \<Rightarrow> jsstring \<Rightarrow> jsstring" where
  "toLowerCase ul s = (if list_all (\<lambda>c. c < 128) s then map lower_ascii s else ul s)"

definition digit_char :: "nat \<Rightarrow> jschar" where
  "digit_char d = (if d < 10 then 48 + d else 87 + d)"

text \<open>\<open>n.toString(radix)\<close> for a non-negative integer \<open>n\<close> and a radix from 2 to 36.\<close>

function toStringRadix :: "nat \<Rightarrow> nat \<Rightarrow> jsstring" where
  "toStringRadix radix n =
     (if radix < 2 \<or> n < radix then [digit_char n]
      else toStringRadix radix (n div radix) @ [digit_char (n mod radix)])"
  by pat_completeness auto
termination
  by (relation "measure (\<lambda>(radix, n). n)") auto

definition em_dash :: jsstring where
  "em_dash = [0x2014]"

definition newline :: jsstring where
  "newline = [0x0A]"

section \<open>Entities (AppContext.tsx)\<close>

record Feature =
  fid :: jsstring
  name :: jsstring
  description :: jsstring
  enabled :: bool
  category :: jsstring
  addedAt :: jsstring

record GPSLog =
  gid :: jsstring
  lat :: real
  lng :: real
  accuracy :: real
  g_timestamp :: jsstring

record PhotoLog =
  pid :: jsstring
  uri :: jsstring
  p_timestamp :: jsstring

datatype log_type = Success | Error | Info

record CommandLog =
  cid :: jsstring
  command :: jsstring
  result :: jsstring
  c_timestamp :: jsstring
  c_type :: log_type

record EmailQueue =
  eid :: jsstring
  subject :: jsstring
  body :: jsstring
  createdAt :: jsstring
  sent :: bool

text \<open>
  What a call reads from its surroundings: the base-36 digits of \<open>Math.random()\<close> after
  the leading \<open>0.\<close> (the value of \<open>Math.random().toString(36).slice(2)\<close>), the clock of
  \<open>Date.now()\<close> in milliseconds, the strings \<open>new Date().toISOString()\<close> and
  \<open>new Date().toLocaleString()\<close>, \<open>Platform.OS\<close>, and the Unicode case mapping that
  \<open>toLowerCase\<close> applies to a string with a code unit beyond ASCII.
\<close>

record ambient =
  random36 :: jsstring
  now_ms :: nat
  iso_time :: jsstring
  locale_time :: jsstring
  platform_os :: jsstring
  unicode_lower :: "jsstring \<Rightarrow> jsstring"

text \<open>The state held by \<open>AppProvider\<close>.\<close>

record app_state =
  features :: "Feature list"
  gpsLogs :: "GPSLog list"
  photoLogs :: "PhotoLog list"
  commandLogs :: "CommandLog list"
  emailQueue :: "EmailQueue list"
  emailAddress :: jsstring
  isOnline :: bool

definition mk_default :: "jsstring \<Rightarrow> jsstring \<Rightarrow> jsstring \<Rightarrow> bool \<Rightarrow> jsstring \<Rightarrow> jsstring \<Rightarrow> Feature" where
  "mk_default i n d e c t =
     \<lparr>fid = i, name = n, description = d, enabled = e, category = c, addedAt = t\<rparr>"

text \<open>\<open>DEFAULT_FEATURES\<close>; the argument is \<open>new Date().toISOString()\<close> at module load.\<close>

definition DEFAULT_FEATURES :: "jsstring \<Rightarrow> Feature list" where
  "DEFAULT_FEATURES t =
     [mk_default (js ''f001'') (js ''GPS Tracking'') (js ''Real-time location logging'') True (js ''Sensors'') t,
      mk_default (js ''f002'') (js ''Camera Capture'') (js ''Offline photo capture'') True (js ''Sensors'') t,
      mk_default (js ''f003'') (js ''Email Sync'') (js ''Sync data when online'') True (js ''Network'') t,
      mk_default (js ''f004'') (js ''Dark Mode'') (js ''Always-on dark interface'') True (js ''UI'') t,
      mk_default (js ''f005'') (js ''Haptic Feedback'') (js ''Tactile button responses'') True (js ''UI'') t,
      mk_default (js ''f006'') (js ''Auto GPS Log'') (js ''Log GPS every 30 seconds'') False (js ''Sensors'') t,
      mk_default (js ''f007'') (js ''Battery Monitor'') (js ''Track battery usage'') False (js ''System'') t,
      mk_default (js ''f008'') (js ''Network Watch'') (js ''Monitor connectivity state'') True (js ''Network'') t,
      mk_default (js ''f009'') (js ''Command History'') (js ''Save all command logs'') True (js ''System'') t,
      mk_default (js ''f010'') (js ''Photo Compression'') (js ''Compress photos on save'') False (js ''Sensors'') t]"

text \<open>The values given to \<open>useState\<close>.\<close>

definition initial_state :: "jsstring \<Rightarrow> app_state" where
  "initial_state t =
     \<lparr>features = DEFAULT_FEATURES t, gpsLogs = [], photoLogs = [], commandLogs = [],
      emailQueue = [], emailAddress = [], isOnline = True\<rparr>"

section \<open>Store operations (AppContext.tsx)\<close>

text \<open>
  Each operation hands an updater to a state setter; the model applies the updater to the
  state at once. The write-through to \<open>AsyncStorage\<close> is not part of the model.
\<close>

definition uid :: "ambient \<Rightarrow> jsstring" where
  "uid amb = random36 amb @ toStringRadix 36 (now_ms amb)"

definition setEmailAddress :: "jsstring \<Rightarrow> app_state \<Rightarrow> app_state" where
  "setEmailAddress email st = st\<lparr>emailAddress := email\<rparr>"

definition toggleFeature :: "jsstring \<Rightarrow> app_state \<Rightarrow> app_state" where
  "toggleFeature i st =
     st\<lparr>features := map (\<lambda>f. if fid f = i then f\<lparr>enabled := \<not> enabled f\<rparr> else f) (features st)\<rparr>"

definition addFeature :: "ambient \<Rightarrow> jsstring \<Rightarrow> jsstring \<Rightarrow> jsstring \<Rightarrow> app_state \<Rightarrow> app_state" where
  "addFeature amb n d c st =
     (let newFeature = \<lparr>fid = uid amb, name = n, description = d, enabled = False,
                         category = c, addedAt = iso_time amb\<rparr>
      in st\<lparr>features := features st @ [newFeature]\<rparr>)"

definition removeFeature :: "jsstring \<Rightarrow> app_state \<Rightarrow> app_state" where
  "removeFeature i st = st\<lparr>features := filter (\<lambda>f. fid f \<noteq> i) (features st)\<rparr>"

definition addGPSLog :: "ambient \<Rightarrow> real \<Rightarrow> real \<Rightarrow> real \<Rightarrow> app_state \<Rightarrow> app_state" where
  "addGPSLog amb la lo acc st =
     (let entry = \<lparr>gid = uid amb, lat = la, lng = lo, accuracy = acc, g_timestamp = iso_time amb\<rparr>
      in st\<lparr>gpsLogs := take 200 (entry # gpsLogs st)\<rparr>)"

definition addPhotoLog :: "ambient \<Rightarrow> jsstring \<Rightarrow> app_state \<Rightarrow> app_state" where
  "addPhotoLog amb u st =
     (let entry = \<lparr>pid = uid amb, uri = u, p_timestamp = iso_time amb\<rparr>
      in st\<lparr>photoLogs := take 100 (entry # photoLogs st)\<rparr>)"

definition addCommandLog :: "ambient \<Rightarrow> jsstring \<Rightarrow> jsstring \<Rightarrow> log_type \<Rightarrow> app_state \<Rightarrow> app_state" where
  "addCommandLog amb cmd res ty st =
     (let entry = \<lparr>cid = uid amb, command = cmd, result = res, c_timestamp = iso_time amb,
                    c_type = ty\<rparr>
      in st\<lparr>commandLogs := take 500 (entry # commandLogs st)\<rparr>)"

definition addEmailQueue :: "ambient \<Rightarrow> jsstring \<Rightarrow> jsstring \<Rightarrow> app_state \<Rightarrow> app_state" where
  "addEmailQueue amb sub bod st =
     (let entry = \<lparr>eid = uid amb, subject = sub, body = bod, createdAt = iso_time amb,
                    sent = False\<rparr>
      in st\<lparr>emailQueue := emailQueue st @ [entry]\<rparr>)"

definition clearCommandLogs :: "app_state \<Rightarrow> app_state" where
  "clearCommandLogs st = st\<lparr>commandLogs := []\<rparr>"

definition clearGPSLogs :: "app_state \<Rightarrow> app_state" where
  "clearGPSLogs st = st\<lparr>gpsLogs := []\<rparr>"

text \<open>
  The outcome of a call of a store operation as its caller sees it: \<open>Inl e\<close> when the call
  throws \<open>e\<close>, \<open>Inr st'\<close> when it returns and leaves the store \<open>st'\<close>. No store operation
  contains a \<open>throw\<close>, and the array operations they use (\<open>map\<close>, \<open>filter\<close>, spread,
  \<open>slice\<close>) do not throw, so every call returns.
\<close>

datatype store_error = ValidationError | NotFoundError

definition store_call :: "(app_state \<Rightarrow> app_state) \<Rightarrow> app_state \<Rightarrow> store_error + app_state" where
  "store_call operation st = Inr (operation st)"

section \<open>The command interpreter (command.tsx)\<close>

record CommandResult =
  success :: bool
  message :: jsstring

text \<open>
  The handle \<open>actions\<close> given to \<open>processCommand\<close> holds store operations. A call of one
  of them is recorded, in call order, as an \<open>action\<close>; \<open>perform\<close> is what the call does to
  the store.
\<close>

datatype action =
    ToggleFeature jsstring
  | AddFeature jsstring jsstring jsstring
  | RemoveFeature jsstring
  | ClearCommandLogs
  | ClearGPSLogs
  | AddEmailQueue jsstring jsstring

fun perform :: "ambient \<Rightarrow> action \<Rightarrow> app_state \<Rightarrow> app_state" where
  "perform amb (ToggleFeature i) st = toggleFeature i st"
| "perform amb (AddFeature n d c) st = addFeature amb n d c st"
| "perform amb (RemoveFeature i) st = removeFeature i st"
| "perform amb ClearCommandLogs st = clearCommandLogs st"
| "perform amb ClearGPSLogs st = clearGPSLogs st"
| "perform amb (AddEmailQueue sub bod) st = addEmailQueue amb sub bod st"

definition perform_all :: "ambient \<Rightarrow> action list \<Rightarrow> app_state \<Rightarrow> app_state" where
  "perform_all amb acts st = fold (perform amb) acts st"

definition ok :: "jsstring \<Rightarrow> CommandResult" where
  "ok m = \<lparr>success = True, message = m\<rparr>"

definition failed :: "jsstring \<Rightarrow> CommandResult" where
  "failed m = \<lparr>success = False, message = m\<rparr>"

definition show_nat :: "nat \<Rightarrow> jsstring" where
  "show_nat n = toStringRadix 10 n"

definition apostrophe :: jsstring where
  "apostrophe = [0x27]"

definition help_message :: jsstring where
  "help_message =
     (js ''Available commands:'') @ newline @
     (js ''  help '') @ em_dash @ (js '' show this list'') @ newline @
     (js ''  list '') @ em_dash @ (js '' list all features'') @ newline @
     (js ''  enable <id> '') @ em_dash @ (js '' enable feature'') @ newline @
     (js ''  disable <id> '') @ em_dash @ (js '' disable feature'') @ newline @
     (js ''  add <name> | <desc> | <category> '') @ em_dash @ (js '' add feature'') @ newline @
     (js ''  remove <id> '') @ em_dash @ (js '' remove feature'') @ newline @
     (js ''  status '') @ em_dash @ (js '' system status'') @ newline @
     (js ''  clear-logs '') @ em_dash @ (js '' clear command logs'') @ newline @
     (js ''  clear-gps '') @ em_dash @ (js '' clear GPS logs'') @ newline @
     (js ''  sync-email '') @ em_dash @ (js '' queue data for email sync'') @ newline @
     (js ''  version '') @ em_dash @ (js '' app version'')"

definition feature_line :: "Feature \<Rightarrow> jsstring" where
  "feature_line f =
     (js ''  ['') @ (if enabled f then (js ''ON '') else (js ''OFF'')) @ (js ''] '') @ fid f @ (js '' '') @ em_dash @
     (js '' '') @ name f @ (js '' ('') @ category f @ (js '')'')"

definition cmd_list :: "Feature list \<Rightarrow> CommandResult \<times> action list" where
  "cmd_list fs =
     (if length fs = 0 then (ok (js ''No features registered.''), [])
      else
        (let featureList = join newline (map feature_line fs)
         in (ok ((js ''Features ('') @ show_nat (length fs) @ (js ''):'') @ newline @ featureList), [])))"

text \<open>
  The predicate of \<open>features.find\<close> in the cases \<open>enable\<close> and \<open>disable\<close>; \<open>i\<close> is
  \<open>args[0]\<close>.
\<close>

definition matches ::
  "(jsstring \<Rightarrow> jsstring) \<Rightarrow> jsstring \<Rightarrow> jsstring list \<Rightarrow> Feature \<Rightarrow> bool" where
  "matches ul i args x \<longleftrightarrow>
     fid x = i \<or> toLowerCase ul (name x) = toLowerCase ul (join (js '' '') args)"

definition cmd_enable ::
  "(jsstring \<Rightarrow> jsstring) \<Rightarrow> jsstring list \<Rightarrow> Feature list \<Rightarrow> CommandResult \<times> action list" where
  "cmd_enable ul args fs =
     (case args of
        [] \<Rightarrow> (failed (js ''Usage: enable <feature-id>''), [])
      | i # _ \<Rightarrow>
          if i = [] then (failed (js ''Usage: enable <feature-id>''), [])
          else
            (case List.find (matches ul i args) fs of
               None \<Rightarrow> (failed ((js ''Feature not found: '') @ i), [])
             | Some f \<Rightarrow>
                 if enabled f then (ok (name f @ (js '' is already enabled.'')), [])
                 else (ok ((js ''Enabled: '') @ name f), [ToggleFeature (fid f)])))"

definition cmd_disable ::
  "(jsstring \<Rightarrow> jsstring) \<Rightarrow> jsstring list \<Rightarrow> Feature list \<Rightarrow> CommandResult \<times> action list" where
  "cmd_disable ul args fs =
     (case args of
        [] \<Rightarrow> (failed (js ''Usage: disable <feature-id>''), [])
      | i # _ \<Rightarrow>
          if i = [] then (failed (js ''Usage: disable <feature-id>''), [])
          else
            (case List.find (matches ul i args) fs of
               None \<Rightarrow> (failed ((js ''Feature not found: '') @ i), [])
             | Some f \<Rightarrow>
                 if \<not> enabled f then (ok (name f @ (js '' is already disabled.'')), [])
                 else (ok ((js ''Disabled: '') @ name f), [ToggleFeature (fid f)])))"

text \<open>
  In the case \<open>add\<close>, the pattern \<open>[name, desc, cat = "Custom"] = splits\<close> takes the default
  only where \<open>splits[2]\<close> is \<open>undefined\<close>, that is where \<open>splits\<close> has two elements.
\<close>

definition cmd_add :: "jsstring list \<Rightarrow> CommandResult \<times> action list" where
  "cmd_add args =
     (let full = join (js '' '') args;
          splits = map trim (split_on pipe full)
      in case splits of
           n # d # rest \<Rightarrow>
             (let cat = (case rest of [] \<Rightarrow> (js ''Custom'') | c # _ \<Rightarrow> c)
              in if n = [] \<or> d = [] then (failed (js ''Name and description are required.''), [])
                 else (ok ((js ''Feature added: '') @ n @ (js '' ['') @ cat @ (js '']'')), [AddFeature n d cat]))
         | _ \<Rightarrow> (failed (js ''Usage: add <name> | <description> | <category>''), []))"

definition cmd_remove :: "jsstring list \<Rightarrow> Feature list \<Rightarrow> CommandResult \<times> action list" where
  "cmd_remove args fs =
     (case args of
        [] \<Rightarrow> (failed (js ''Usage: remove <feature-id>''), [])
      | i # _ \<Rightarrow>
          if i = [] then (failed (js ''Usage: remove <feature-id>''), [])
          else
            (case List.find (\<lambda>x. fid x = i) fs of
               None \<Rightarrow> (failed ((js ''Feature not found: '') @ i), [])
             | Some f \<Rightarrow> (ok ((js ''Removed: '') @ name f), [RemoveFeature (fid f)])))"

definition cmd_status :: "ambient \<Rightarrow> Feature list \<Rightarrow> jsstring \<Rightarrow> CommandResult \<times> action list" where
  "cmd_status amb fs email =
     (let en = length (filter enabled fs)
      in (ok ((js ''System Status:'') @ newline @
              (js ''  Features: '') @ show_nat en @ (js ''/'') @ show_nat (length fs) @ (js '' active'') @ newline @
              (js ''  Email: '') @ (if email = [] then (js ''not configured'') else email) @ newline @
              (js ''  Platform: '') @ platform_os amb @ newline @
              (js ''  Version: 1.0.0'')), []))"

definition cmd_sync_email :: "ambient \<Rightarrow> Feature list \<Rightarrow> jsstring \<Rightarrow> CommandResult \<times> action list" where
  "cmd_sync_email amb fs email =
     (if email = [] then (failed (js ''No email configured. Set it in Settings first.''), [])
      else
        (ok ((js ''Email queued for: '') @ email),
         [AddEmailQueue (js ''Rubel Engine Data Sync'')
            ((js ''Sync request at '') @ locale_time amb @ newline @
             (js ''Features: '') @ join (js '', '') (map name (filter enabled fs)))]))"

text \<open>
  \<open>processCommand(input, features, actions)\<close>; \<open>email\<close> is \<open>actions.emailAddress\<close>. The
  result is the returned \<open>CommandResult\<close> and the calls made on \<open>actions\<close>. \<open>cmd\<close> is
  \<open>None\<close> where \<open>parts[0]\<close> is \<open>undefined\<close>.
\<close>

definition processCommand ::
  "ambient \<Rightarrow> jsstring \<Rightarrow> Feature list \<Rightarrow> jsstring \<Rightarrow> CommandResult \<times> action list" where
  "processCommand amb input fs email =
     (let parts = split_ws (trim input);
          cmd = (case parts of [] \<Rightarrow> None | p # _ \<Rightarrow> Some (toLowerCase (unicode_lower amb) p));
          args = drop 1 parts
      in if cmd = Some (js ''help'') then (ok help_message, [])
         else if cmd = Some (js ''list'') then cmd_list fs
         else if cmd = Some (js ''enable'') then cmd_enable (unicode_lower amb) args fs
         else if cmd = Some (js ''disable'') then cmd_disable (unicode_lower amb) args fs
         else if cmd = Some (js ''add'') then cmd_add args
         else if cmd = Some (js ''remove'') then cmd_remove args fs
         else if cmd = Some (js ''status'') then cmd_status amb fs email
         else if cmd = Some (js ''clear-logs'') then (ok (js ''Command logs cleared.''), [ClearCommandLogs])
         else if cmd = Some (js ''clear-gps'') then (ok (js ''GPS logs cleared.''), [ClearGPSLogs])
         else if cmd = Some (js ''sync-email'') then cmd_sync_email amb fs email
         else if cmd = Some (js ''version'') then
           (ok ((js ''Rubel Engine v1.0.0'') @ newline @ (js ''Built with Expo React Native'') @ newline @
                (js ''100% offline-capable'')), [])
         else if cmd = Some [] then
           (failed ((js ''No command entered. Type '') @ apostrophe @ (js ''help'') @ apostrophe @
                    (js '' for options.'')), [])
         else
           (failed ((js ''Unknown command: '') @ apostrophe @
                    (case cmd of None \<Rightarrow> (js ''undefined'') | Some c \<Rightarrow> c) @ apostrophe @
                    (js ''. Type '') @ apostrophe @ (js ''help'') @ apostrophe @
                    (js '' for available commands.'')), []))"

section \<open>The admin form (sensors.tsx)\<close>

text \<open>
  \<open>addNewFeature\<close> of \<open>SettingsScreen\<close>, the other caller of \<open>addFeature\<close>. Its arguments
  are the form fields \<open>newFeatureName\<close>, \<open>newFeatureDesc\<close> and \<open>newFeatureCat\<close>; the alert,
  the reset of the fields and the haptic feedback are outside the store.
\<close>

definition addNewFeature :: "ambient \<Rightarrow> jsstring \<Rightarrow> jsstring \<Rightarrow> jsstring \<Rightarrow> app_state \<Rightarrow> app_state" where
  "addNewFeature amb newFeatureName newFeatureDesc newFeatureCat st =
     (if trim newFeatureName = [] \<or> trim newFeatureDesc = [] then st
      else addFeature amb (trim newFeatureName) (trim newFeatureDesc)
             (if trim newFeatureCat = [] then (js ''Custom'') else trim newFeatureCat) st)"

section \<open>Sequences of calls\<close>

text \<open>A call of \<open>addFeature\<close>: what it reads from its surroundings, and its arguments.\<close>

type_synonym add_call = "ambient \<times> jsstring \<times> jsstring \<times> jsstring"

fun add_features :: "add_call list \<Rightarrow> app_state \<Rightarrow> app_state" where
  "add_features [] st = st"
| "add_features ((amb, n, d, c) # calls) st = add_features calls (addFeature amb n d c st)"

text \<open>A call of one of the three operations that append to a capped log.\<close>

datatype append_call =
    GPS ambient real real real
  | Photo ambient jsstring
  | Command ambient jsstring jsstring log_type

fun append_log :: "append_call \<Rightarrow> app_state \<Rightarrow> app_state" where
  "append_log (GPS amb la lo acc) st = addGPSLog amb la lo acc st"
| "append_log (Photo amb u) st = addPhotoLog amb u st"
| "append_log (Command amb cmd res ty) st = addCommandLog amb cmd res ty st"

fun append_logs :: "append_call list \<Rightarrow> app_state \<Rightarrow> app_state" where
  "append_logs [] st = st"
| "append_logs (a # as) st = append_logs as (append_log a st)"

definition within_caps :: "app_state \<Rightarrow> bool" where
  "within_caps st \<longleftrightarrow>
     length (gpsLogs st) \<le> 200 \<and> length (photoLogs st) \<le> 100 \<and> length (commandLogs st) \<le> 500"

section \<open>The calls of one run of the interpreter\<close>

text \<open>
  How a run of the interpreter can end: with no call on the store; or with a successful
  result and exactly one call, which in the case of \<open>addFeature\<close> has a non-empty name
  and description.
\<close>

definition one_call :: "CommandResult \<times> action list \<Rightarrow> bool" where
  "one_call ra \<longleftrightarrow>
     snd ra = [] \<or>
     (success (fst ra) \<and>
      ((\<exists>i. snd ra = [ToggleFeature i]) \<or> (\<exists>i. snd ra = [RemoveFeature i]) \<or>
       (\<exists>sub bod. snd ra = [AddEmailQueue sub bod]) \<or>
       (\<exists>n d c. snd ra = [AddFeature n d c] \<and> n \<noteq> [] \<and> d \<noteq> []) \<or>
       snd ra = [ClearCommandLogs] \<or> snd ra = [ClearGPSLogs]))"

section \<open>Example inputs\<close>

text \<open>
  The examples hold strings of ASCII code units only; on them \<open>toLowerCase\<close> does not
  consult the case mapping of the engine.
\<close>

definition amb_example :: ambient where
  "amb_example =
     \<lparr>random36 = (js ''k3x9f2m1q8''), now_ms = 1700000000000,
      iso_time = (js ''2023-11-14T22:13:20.000Z''), locale_time = (js ''11/14/2023, 10:13:20 PM''),
      platform_os = (js ''android''), unicode_lower = (\<lambda>s. s)\<rparr>"

definition amb_later :: ambient where
  "amb_later =
     \<lparr>random36 = (js ''7c0z4hd2pw''), now_ms = 1700000000250,
      iso_time = (js ''2023-11-14T22:13:20.250Z''), locale_time = (js ''11/14/2023, 10:13:20 PM''),
      platform_os = (js ''android''), unicode_lower = (\<lambda>s. s)\<rparr>"

definition st_example :: app_state where
  "st_example = initial_state (js ''2023-11-14T22:00:00.000Z'')"

definition gps_example :: GPSLog where
  "gps_example =
     \<lparr>gid = (js ''4fj2a9lox3abcd''), lat = 23.81, lng = 90.41, accuracy = 5,
      g_timestamp = (js ''2023-11-14T22:05:00.000Z'')\<rparr>"

definition photo_example :: PhotoLog where
  "photo_example =
     \<lparr>pid = (js ''9d1k2m4nlox3abzz''), uri = (js ''file:///cache/Camera/1.jpg''),
      p_timestamp = (js ''2023-11-14T22:06:00.000Z'')\<rparr>"

definition log_example :: CommandLog where
  "log_example =
     \<lparr>cid = (js ''1a2b3c4dlox3abyy''), command = (js ''help''), result = (js ''ok''),
      c_timestamp = (js ''2023-11-14T22:07:00.000Z''), c_type = Success\<rparr>"

text \<open>A store whose three capped logs are full.\<close>

definition st_full :: app_state where
  "st_full =
     st_example\<lparr>gpsLogs := replicate 200 gps_example, photoLogs := replicate 100 photo_example,
                commandLogs := replicate 500 log_example\<rparr>"

text \<open>
  The store after two calls of \<open>addFeature\<close> that read the same digits from
  \<open>Math.random()\<close> within the same millisecond: its last two features have the same id.
\<close>

definition st_twins :: app_state where
  "st_twins =
     add_features [(amb_example, js ''Torch'', js ''Flashlight control'', js ''Custom''),
                   (amb_example, js ''Compass'', js ''Heading display'', js ''Sensors'')]
       st_example"

section \<open>Store operations: what each call changes\<close>

lemma toggle_map_absent:
  "i \<notin> fid ` set fs \<Longrightarrow> map (\<lambda>f. if fid f = i then f\<lparr>enabled := \<not> enabled f\<rparr> else f) fs = fs"
  by (induction fs) auto


text \<open>
  C10. \<open>clearGPSLogs\<close> leaves the GPS log empty and every other part of the store as it
  was; \<open>clearCommandLogs\<close> does the same for the command log.
\<close>

theorem clear_logs_frame:
  "gpsLogs (clearGPSLogs st) = [] \<and>
   features (clearGPSLogs st) = features st \<and>
   photoLogs (clearGPSLogs st) = photoLogs st \<and>
   commandLogs (clearGPSLogs st) = commandLogs st \<and>
   emailQueue (clearGPSLogs st) = emailQueue st \<and>
   emailAddress (clearGPSLogs st) = emailAddress st \<and>
   isOnline (clearGPSLogs st) = isOnline st \<and>
   commandLogs (clearCommandLogs st) = [] \<and>
   features (clearCommandLogs st) = features st \<and>
   gpsLogs (clearCommandLogs st) = gpsLogs st \<and>
   photoLogs (clearCommandLogs st) = photoLogs st \<and>
   emailQueue (clearCommandLogs st) = emailQueue st \<and>
   emailAddress (clearCommandLogs st) = emailAddress st \<and>
   isOnline (clearCommandLogs st) = isOnline st"
  by (simp add: clearGPSLogs_def clearCommandLogs_def)



lemma append_log_within_caps: "within_caps st \<Longrightarrow> within_caps (append_log a st)"
  by (cases a) (simp_all add: within_caps_def addGPSLog_def addPhotoLog_def addCommandLog_def)

lemma append_logs_within_caps: "within_caps st \<Longrightarrow> within_caps (append_logs as st)"
  by (induction as arbitrary: st) (simp_all add: append_log_within_caps)

text \<open>
  C6. Each append puts the new entry in front of the entries already there and keeps at
  most the cap (200 GPS entries, 100 photo entries, 500 command entries); on a log that
  holds exactly the cap, the last (oldest) entry is the one dropped and the cap remains.
  A store within the caps stays within them through every sequence of appends, and the
  initial store is within the caps.
\<close>

theorem capped_logs_newest_first:
  "(within_caps st \<longrightarrow> within_caps (append_logs calls st)) \<and>
   within_caps (append_logs calls (initial_state t)) \<and>
   gpsLogs (addGPSLog amb la lo acc st) =
     \<lparr>gid = uid amb, lat = la, lng = lo, accuracy = acc, g_timestamp = iso_time amb\<rparr>
       # take 199 (gpsLogs st) \<and>
   length (gpsLogs (addGPSLog amb la lo acc st)) \<le> 200 \<and>
   (length (gpsLogs st) = 200 \<longrightarrow>
      gpsLogs (addGPSLog amb la lo acc st) =
        \<lparr>gid = uid amb, lat = la, lng = lo, accuracy = acc, g_timestamp = iso_time amb\<rparr>
          # butlast (gpsLogs st) \<and>
      length (gpsLogs (addGPSLog amb la lo acc st)) = 200) \<and>
   photoLogs (addPhotoLog amb u st) =
     \<lparr>pid = uid amb, uri = u, p_timestamp = iso_time amb\<rparr> # take 99 (photoLogs st) \<and>
   length (photoLogs (addPhotoLog amb u st)) \<le> 100 \<and>
   (length (photoLogs st) = 100 \<longrightarrow>
      photoLogs (addPhotoLog amb u st) =
        \<lparr>pid = uid amb, uri = u, p_timestamp = iso_time amb\<rparr> # butlast (photoLogs st) \<and>
      length (photoLogs (addPhotoLog amb u st)) = 100) \<and>
   commandLogs (addCommandLog amb cmd res ty st) =
     \<lparr>cid = uid amb, command = cmd, result = res, c_timestamp = iso_time amb, c_type = ty\<rparr>
       # take 499 (commandLogs st) \<and>
   length (commandLogs (addCommandLog amb cmd res ty st)) \<le> 500 \<and>
   (length (commandLogs st) = 500 \<longrightarrow>
      commandLogs (addCommandLog amb cmd res ty st) =
        \<lparr>cid = uid amb, command = cmd, result = res, c_timestamp = iso_time amb, c_type = ty\<rparr>
          # butlast (commandLogs st) \<and>
      length (commandLogs (addCommandLog amb cmd res ty st)) = 500)"
proof -
  have seq: "within_caps st \<longrightarrow> within_caps (append_logs calls st)"
    by (simp add: append_logs_within_caps)
  have init: "within_caps (append_logs calls (initial_state t))"
    by (rule append_logs_within_caps) (simp add: within_caps_def initial_state_def)
  have g: "gpsLogs (addGPSLog amb la lo acc st) =
      \<lparr>gid = uid amb, lat = la, lng = lo, accuracy = acc, g_timestamp = iso_time amb\<rparr>
        # take 199 (gpsLogs st)"
    by (simp add: addGPSLog_def)
  have p: "photoLogs (addPhotoLog amb u st) =
      \<lparr>pid = uid amb, uri = u, p_timestamp = iso_time amb\<rparr> # take 99 (photoLogs st)"
    by (simp add: addPhotoLog_def)
  have c: "commandLogs (addCommandLog amb cmd res ty st) =
      \<lparr>cid = uid amb, command = cmd, result = res, c_timestamp = iso_time amb, c_type = ty\<rparr>
        # take 499 (commandLogs st)"
    by (simp add: addCommandLog_def)
  have full: "length xs = Suc n \<Longrightarrow> take n xs = butlast xs" for xs :: "'a list" and n
    by (simp add: butlast_conv_take)
  have g200: "length (gpsLogs st) = 200 \<longrightarrow> take 199 (gpsLogs st) = butlast (gpsLogs st)"
    using full [of "gpsLogs st" 199] by simp
  have p100: "length (photoLogs st) = 100 \<longrightarrow> take 99 (photoLogs st) = butlast (photoLogs st)"
    using full [of "photoLogs st" 99] by simp
  have c500: "length (commandLogs st) = 500 \<longrightarrow> take 499 (commandLogs st) = butlast (commandLogs st)"
    using full [of "commandLogs st" 499] by simp
  show ?thesis
    unfolding g p c using seq init g200 p100 c500 by simp
qed


theorem capped_logs_newest_first_witness:
  "within_caps (append_logs [GPS amb_example 23.81 90.41 5, Photo amb_later (js ''file:///cache/2.jpg'')] st_example) \<and>
   gpsLogs (addGPSLog amb_example 23.81 90.41 5 st_full) =
     \<lparr>gid = uid amb_example, lat = 23.81, lng = 90.41, accuracy = 5,
      g_timestamp = iso_time amb_example\<rparr> # butlast (gpsLogs st_full) \<and>
   length (gpsLogs (addGPSLog amb_example 23.81 90.41 5 st_full)) = 200 \<and>
   length (photoLogs (addPhotoLog amb_example (js ''file:///cache/2.jpg'') st_full)) = 100 \<and>
   length (commandLogs (addCommandLog amb_example (js ''list'') (js ''ok'') Success st_full)) = 500"
proof -
  have a: "within_caps st_example"
    by (simp add: within_caps_def st_example_def initial_state_def)
  have b: "length (gpsLogs st_full) = 200 \<and> length (photoLogs st_full) = 100 \<and>
           length (commandLogs st_full) = 500"
    by (simp add: st_full_def)
  show ?thesis
    using a b
      capped_logs_newest_first [where st = st_example
        and calls = "[GPS amb_example 23.81 90.41 5, Photo amb_later (js ''file:///cache/2.jpg'')]"]
      capped_logs_newest_first [where st = st_full and amb = amb_example and la = "23.81"
        and lo = "90.41" and acc = 5 and u = "(js ''file:///cache/2.jpg'')" and cmd = "(js ''list'')"
        and res = "(js ''ok'')" and ty = Success]
    by blast
qed

section \<open>Feature operations\<close>

lemma toggle_map_split:
  "fid f = i \<Longrightarrow> i \<notin> fid ` set pre \<Longrightarrow> i \<notin> fid ` set post \<Longrightarrow>
   map (\<lambda>f. if fid f = i then f\<lparr>enabled := \<not> enabled f\<rparr> else f) (pre @ f # post) =
     pre @ f\<lparr>enabled := \<not> enabled f\<rparr> # post"
  by (simp add: toggle_map_absent)

text \<open>
  C3, as the code has it. \<open>toggleFeature(id)\<close> never fails: where no feature has the id it
  returns and leaves the store unchanged. Every feature that has the id gets its
  \<open>enabled\<close> flag flipped (one feature, where the id occurs once), every other feature
  and the rest of the store are unchanged.
\<close>

theorem toggleFeature_flips:
  "store_call (toggleFeature i) st = Inr (toggleFeature i st) \<and>
   (i \<notin> fid ` set (features st) \<longrightarrow> toggleFeature i st = st) \<and>
   length (features (toggleFeature i st)) = length (features st) \<and>
   (\<forall>k < length (features st).
      features (toggleFeature i st) ! k =
        (if fid (features st ! k) = i
         then (features st ! k)\<lparr>enabled := \<not> enabled (features st ! k)\<rparr>
         else features st ! k)) \<and>
   (\<forall>pre f post.
      features st = pre @ f # post \<and> fid f = i \<and> i \<notin> fid ` set pre \<and> i \<notin> fid ` set post
      \<longrightarrow> features (toggleFeature i st) = pre @ f\<lparr>enabled := \<not> enabled f\<rparr> # post) \<and>
   gpsLogs (toggleFeature i st) = gpsLogs st \<and>
   photoLogs (toggleFeature i st) = photoLogs st \<and>
   commandLogs (toggleFeature i st) = commandLogs st \<and>
   emailQueue (toggleFeature i st) = emailQueue st \<and>
   emailAddress (toggleFeature i st) = emailAddress st \<and>
   isOnline (toggleFeature i st) = isOnline st"
proof -
  have absent: "i \<notin> fid ` set (features st) \<longrightarrow> toggleFeature i st = st"
    by (simp add: toggleFeature_def toggle_map_absent)
  have once: "features (toggleFeature i st) = pre @ f\<lparr>enabled := \<not> enabled f\<rparr> # post"
    if "features st = pre @ f # post" "fid f = i" "i \<notin> fid ` set pre" "i \<notin> fid ` set post"
    for pre f post
    using that toggle_map_split [of f i pre post] by (simp add: toggleFeature_def)
  have pointwise: "\<forall>k < length (features st).
      features (toggleFeature i st) ! k =
        (if fid (features st ! k) = i
         then (features st ! k)\<lparr>enabled := \<not> enabled (features st ! k)\<rparr>
         else features st ! k)"
    by (simp add: toggleFeature_def)
  show ?thesis
    using absent once pointwise
    by (simp add: store_call_def) (simp add: toggleFeature_def)
qed

theorem toggleFeature_flips_witness:
  "toggleFeature (js ''zzzz'') st_example = st_example \<and>
   features (toggleFeature (js ''f002'') (st_example\<lparr>features := take 3 (features st_example)\<rparr>)) =
     [features st_example ! 0,
      (features st_example ! 1)\<lparr>enabled := False\<rparr>,
      features st_example ! 2] \<and>
   features (toggleFeature (js ''f001'') st_example) ! 0 = (features st_example ! 0)\<lparr>enabled := False\<rparr>"
proof -
  let ?st = "st_example\<lparr>features := take 3 (features st_example)\<rparr>"
  have a: "(js ''zzzz'') \<notin> fid ` set (features st_example)"
    by (simp add: st_example_def initial_state_def DEFAULT_FEATURES_def mk_default_def js_def)
  have b: "features ?st = [features st_example ! 0] @ (features st_example ! 1) # [features st_example ! 2]
           \<and> fid (features st_example ! 1) = (js ''f002'')
           \<and> (js ''f002'') \<notin> fid ` set [features st_example ! 0]
           \<and> (js ''f002'') \<notin> fid ` set [features st_example ! 2]
           \<and> enabled (features st_example ! 1)"
    by (simp add: st_example_def initial_state_def DEFAULT_FEATURES_def mk_default_def js_def)
  have c: "0 < length (features st_example) \<and> fid (features st_example ! 0) = (js ''f001'')
           \<and> enabled (features st_example ! 0)"
    by (simp add: st_example_def initial_state_def DEFAULT_FEATURES_def mk_default_def js_def)
  have 1: "toggleFeature (js ''zzzz'') st_example = st_example"
    using toggleFeature_flips [of "(js ''zzzz'')" st_example] a by blast
  have 2: "features (toggleFeature (js ''f002'') ?st) =
     [features st_example ! 0] @ (features st_example ! 1)\<lparr>enabled := \<not> enabled (features st_example ! 1)\<rparr>
       # [features st_example ! 2]"
    using toggleFeature_flips [of "(js ''f002'')" ?st] b by blast
  have 3: "features (toggleFeature (js ''f001'') st_example) ! 0 =
     (if fid (features st_example ! 0) = (js ''f001'')
      then (features st_example ! 0)\<lparr>enabled := \<not> enabled (features st_example ! 0)\<rparr>
      else features st_example ! 0)"
    using toggleFeature_flips [of "(js ''f001'')" st_example] c by blast
  show ?thesis
    using 1 2 3 b c by simp
qed

text \<open>
  The call does not fail for an id that no feature has: it returns (no
  \<open>NotFoundError\<close>) with the store as it was.
\<close>

theorem toggleFeature_absent_counterexample:
  "(js ''zzzz'') \<notin> fid ` set (features st_example) \<and>
   store_call (toggleFeature (js ''zzzz'')) st_example = Inr st_example \<and>
   store_call (toggleFeature (js ''zzzz'')) st_example \<noteq> Inl NotFoundError"
  by (simp add: store_call_def toggleFeature_def st_example_def initial_state_def
      DEFAULT_FEATURES_def mk_default_def js_def)


section \<open>The calls a command makes\<close>

lemma success_ok: "success (ok m)" "message (ok m) = m"
  by (simp_all add: ok_def)

lemma success_failed: "\<not> success (failed m)" "message (failed m) = m"
  by (simp_all add: failed_def)

lemma cmd_list_actions: "snd (cmd_list fs) = []"
  by (simp add: cmd_list_def Let_def)

lemma cmd_status_actions: "snd (cmd_status amb fs email) = []"
  by (simp add: cmd_status_def Let_def)

lemma cmd_enable_actions:
  "snd (cmd_enable ul args fs) = [] \<or>
   (success (fst (cmd_enable ul args fs)) \<and> (\<exists>i. snd (cmd_enable ul args fs) = [ToggleFeature i]))"
  by (simp add: cmd_enable_def success_ok split: list.splits option.splits)

lemma cmd_disable_actions:
  "snd (cmd_disable ul args fs) = [] \<or>
   (success (fst (cmd_disable ul args fs)) \<and> (\<exists>i. snd (cmd_disable ul args fs) = [ToggleFeature i]))"
  by (simp add: cmd_disable_def success_ok split: list.splits option.splits)

lemma cmd_remove_actions:
  "snd (cmd_remove args fs) = [] \<or>
   (success (fst (cmd_remove args fs)) \<and> (\<exists>i. snd (cmd_remove args fs) = [RemoveFeature i]))"
  by (simp add: cmd_remove_def success_ok split: list.splits option.splits)

lemma cmd_sync_email_actions:
  "snd (cmd_sync_email amb fs email) = [] \<or>
   (success (fst (cmd_sync_email amb fs email)) \<and>
    (\<exists>sub bod. snd (cmd_sync_email amb fs email) = [AddEmailQueue sub bod]))"
  by (simp add: cmd_sync_email_def success_ok)

lemma cmd_add_actions:
  "snd (cmd_add args) = [] \<or>
   (success (fst (cmd_add args)) \<and>
    (\<exists>n d c. snd (cmd_add args) = [AddFeature n d c] \<and> n \<noteq> [] \<and> d \<noteq> []))"
  by (simp add: cmd_add_def Let_def success_ok split: list.splits)

lemma processCommand_one_call: "one_call (processCommand amb input fs email)"
proof -
  have 1: "one_call (cmd_list fs)" by (simp add: one_call_def cmd_list_actions)
  have 2: "one_call (cmd_enable ul args fs)" for args ul
    using cmd_enable_actions [of ul args fs] by (auto simp: one_call_def)
  have 3: "one_call (cmd_disable ul args fs)" for args ul
    using cmd_disable_actions [of ul args fs] by (auto simp: one_call_def)
  have 4: "one_call (cmd_add args)" for args
    using cmd_add_actions [of args] by (auto simp: one_call_def)
  have 5: "one_call (cmd_remove args fs)" for args
    using cmd_remove_actions [of args fs] by (auto simp: one_call_def)
  have 6: "one_call (cmd_status amb fs email)" by (simp add: one_call_def cmd_status_actions)
  have 7: "one_call (cmd_sync_email amb fs email)"
    using cmd_sync_email_actions [of amb fs email] by (auto simp: one_call_def)
  have 8: "one_call (ok m, [])" "one_call (failed m, [])" "one_call (ok m, [ClearCommandLogs])"
    "one_call (ok m, [ClearGPSLogs])" for m
    by (simp_all add: one_call_def success_ok)
  show ?thesis
    unfolding processCommand_def Let_def
    using 1 2 3 4 5 6 7 8 by presburger
qed

text \<open>
  C4. \<open>processCommand\<close> returns a result for every input, list of features and email
  address, and makes at most one call on the store. Whenever the result has
  \<open>success = false\<close> it has made no call, so the store is as it was.
\<close>

theorem processCommand_failure_no_mutation:
  "\<exists>r acts. processCommand amb input fs email = (r, acts) \<and> length acts \<le> 1 \<and>
     (\<not> success r \<longrightarrow> acts = [] \<and> perform_all amb acts st = st)"
proof -
  obtain r acts where ra: "processCommand amb input fs email = (r, acts)"
    by (cases "processCommand amb input fs email")
  have "one_call (r, acts)"
    using processCommand_one_call [of amb input fs email] ra by simp
  then have "length acts \<le> 1 \<and> (\<not> success r \<longrightarrow> acts = [])"
    by (auto simp: one_call_def)
  then show ?thesis
    using ra by (auto simp: perform_all_def)
qed


section \<open>Evaluating the parser on literals\<close>

lemmas string_eval =
  trim_def is_space_def toLowerCase_def lower_ascii_def js_def pipe_def

lemma parse_enable_missing:
  "processCommand amb_example (js ''enable nonexistent-id'') (features st_example) [] =
     (failed (js ''Feature not found: nonexistent-id''), [])"
  by (simp add: processCommand_def cmd_enable_def matches_def string_eval st_example_def
      initial_state_def DEFAULT_FEATURES_def mk_default_def)

theorem processCommand_failure_no_mutation_witness:
  "\<not> success (fst (processCommand amb_example (js ''enable nonexistent-id'') (features st_example) [])) \<and>
   snd (processCommand amb_example (js ''enable nonexistent-id'') (features st_example) []) = [] \<and>
   perform_all amb_example
     (snd (processCommand amb_example (js ''enable nonexistent-id'') (features st_example) []))
     st_example = st_example"
proof -
  have f: "\<not> success (fst (processCommand amb_example (js ''enable nonexistent-id'') (features st_example) []))"
    by (simp add: parse_enable_missing success_failed)
  show ?thesis
    using f processCommand_failure_no_mutation
      [of amb_example "(js ''enable nonexistent-id'')" "features st_example" "[]" st_example]
    by auto
qed


section \<open>Adding features\<close>

lemma processCommand_add_nonempty:
  "AddFeature n d c \<in> set (snd (processCommand amb input fs email)) \<Longrightarrow> n \<noteq> [] \<and> d \<noteq> []"
  using processCommand_one_call [of amb input fs email]
  by (auto simp: one_call_def)

text \<open>
  C1, as the code has it. \<open>addFeature\<close> checks nothing: every call returns without
  error and appends one feature at the end of the list, with the given name, description
  and category, \<open>enabled = false\<close> and the id that \<open>uid()\<close> gives; the rest of the store is
  unchanged. The test for an empty name or description is made by its two callers: the
  interpreter calls it only with a non-empty name and description, and the admin form
  leaves the store alone where the trimmed name or description is empty.
\<close>

theorem addFeature_appends_unchecked:
  "store_call (addFeature amb n d c) st = Inr (addFeature amb n d c st) \<and>
   features (addFeature amb n d c st) =
     features st @ [\<lparr>fid = uid amb, name = n, description = d, enabled = False, category = c,
                     addedAt = iso_time amb\<rparr>] \<and>
   gpsLogs (addFeature amb n d c st) = gpsLogs st \<and>
   photoLogs (addFeature amb n d c st) = photoLogs st \<and>
   commandLogs (addFeature amb n d c st) = commandLogs st \<and>
   emailQueue (addFeature amb n d c st) = emailQueue st \<and>
   emailAddress (addFeature amb n d c st) = emailAddress st \<and>
   isOnline (addFeature amb n d c st) = isOnline st \<and>
   (\<forall>n' d' c'. AddFeature n' d' c' \<in> set (snd (processCommand amb input fs email))
      \<longrightarrow> n' \<noteq> [] \<and> d' \<noteq> []) \<and>
   (trim n = [] \<or> trim d = [] \<longrightarrow> addNewFeature amb n d c st = st) \<and>
   (trim n \<noteq> [] \<and> trim d \<noteq> [] \<longrightarrow>
      (\<exists>c'. addNewFeature amb n d c st = addFeature amb (trim n) (trim d) c' st))"
proof -
  have guard: "\<forall>n' d' c'. AddFeature n' d' c' \<in> set (snd (processCommand amb input fs email))
      \<longrightarrow> n' \<noteq> [] \<and> d' \<noteq> []"
    using processCommand_add_nonempty by blast
  have form: "(trim n = [] \<or> trim d = [] \<longrightarrow> addNewFeature amb n d c st = st) \<and>
      (trim n \<noteq> [] \<and> trim d \<noteq> [] \<longrightarrow>
         (\<exists>c'. addNewFeature amb n d c st = addFeature amb (trim n) (trim d) c' st))"
    by (auto simp: addNewFeature_def)
  show ?thesis
    using guard form by (simp add: store_call_def) (simp add: addFeature_def)
qed

lemma parse_add_torch:
  "processCommand amb_example (js ''add Torch | Flashlight control'') (features st_example) [] =
     (ok (js ''Feature added: Torch [Custom]''), [AddFeature (js ''Torch'') (js ''Flashlight control'') (js ''Custom'')])"
  by (simp add: processCommand_def cmd_add_def string_eval)

theorem addFeature_appends_unchecked_witness:
  "features (addFeature amb_example (js ''Torch'') (js ''Flashlight control'') (js ''Custom'') st_example) =
     features st_example @
       [\<lparr>fid = uid amb_example, name = (js ''Torch''), description = (js ''Flashlight control''),
         enabled = False, category = (js ''Custom''), addedAt = iso_time amb_example\<rparr>] \<and>
   addNewFeature amb_example (js ''   '') (js ''Flashlight control'') (js ''Custom'') st_example = st_example \<and>
   AddFeature (js ''Torch'') (js ''Flashlight control'') (js ''Custom'')
     \<in> set (snd (processCommand amb_example (js ''add Torch | Flashlight control'') (features st_example) [])) \<and>
   (js ''Torch'') \<noteq> []"
proof -
  have a: "trim (js ''   '') = []"
    by (simp add: string_eval)
  have b: "AddFeature (js ''Torch'') (js ''Flashlight control'') (js ''Custom'')
     \<in> set (snd (processCommand amb_example (js ''add Torch | Flashlight control'') (features st_example) []))"
    by (simp add: parse_add_torch)
  show ?thesis
    using a b
      addFeature_appends_unchecked [of amb_example "(js ''Torch'')" "(js ''Flashlight control'')"
        "(js ''Custom'')" st_example "(js ''add Torch | Flashlight control'')" "features st_example" "[]"]
      addFeature_appends_unchecked [of amb_example "(js ''   '')" "(js ''Flashlight control'')"
        "(js ''Custom'')" st_example "(js ''add Torch | Flashlight control'')" "features st_example" "[]"]
    by blast
qed

text \<open>
  A call with an empty name and description does not fail with \<open>ValidationError\<close>: it
  returns, and the list has one feature more, whose name is empty.
\<close>

theorem addFeature_empty_name_counterexample:
  "trim [] = [] \<and>
   store_call (addFeature amb_example [] [] (js ''Custom'')) st_example \<noteq> Inl ValidationError \<and>
   length (features (addFeature amb_example [] [] (js ''Custom'') st_example)) =
     Suc (length (features st_example)) \<and>
   name (last (features (addFeature amb_example [] [] (js ''Custom'') st_example))) = []"
  by (simp add: store_call_def addFeature_def trim_def)

section \<open>Ids\<close>

lemma add_features_ids:
  "map fid (features (add_features calls st)) =
     map fid (features st) @ map (\<lambda>call. uid (fst call)) calls"
proof (induction calls arbitrary: st)
  case Nil
  then show ?case by simp
next
  case (Cons call calls)
  obtain amb n d c where call: "call = (amb, n, d, c)"
    by (cases call)
  show ?case
    by (simp add: call Cons.IH addFeature_def)
qed

text \<open>
  C8, as the code has it. After a sequence of \<open>addFeature\<close> calls the ids in the feature
  list are the ids that were there, followed by the values of \<open>uid()\<close> in call order;
  \<open>addFeature\<close> does not compare them. So the ids are pairwise distinct exactly when the
  ids before were, the values of \<open>uid()\<close> differ from one another, and none of them is an
  id already in the list.
\<close>

theorem addFeature_ids_distinct:
  "map fid (features (add_features calls st)) =
     map fid (features st) @ map (\<lambda>call. uid (fst call)) calls \<and>
   (distinct (map fid (features (add_features calls st))) \<longleftrightarrow>
      distinct (map fid (features st)) \<and>
      distinct (map (\<lambda>call. uid (fst call)) calls) \<and>
      (\<forall>call \<in> set calls. uid (fst call) \<notin> fid ` set (features st)))"
proof -
  have ids: "map fid (features (add_features calls st)) =
      map fid (features st) @ map (\<lambda>call. uid (fst call)) calls"
    by (rule add_features_ids)
  have "distinct (map fid (features st) @ map (\<lambda>call. uid (fst call)) calls) \<longleftrightarrow>
      distinct (map fid (features st)) \<and>
      distinct (map (\<lambda>call. uid (fst call)) calls) \<and>
      (\<forall>call \<in> set calls. uid (fst call) \<notin> fid ` set (features st))"
    by (auto simp: image_iff) (metis fst_conv)+
  then show ?thesis
    using ids by simp
qed

theorem addFeature_ids_distinct_witness:
  "distinct (map fid (features
     (add_features [(amb_example, (js ''Torch''), (js ''Flashlight control''), (js ''Custom'')),
                    (amb_later, (js ''Compass''), (js ''Heading display''), (js ''Sensors''))] st_example)))"
proof -
  let ?calls = "[(amb_example, (js ''Torch''), (js ''Flashlight control''), (js ''Custom'')),
                 (amb_later, (js ''Compass''), (js ''Heading display''), (js ''Sensors''))]"
  have a: "distinct (map fid (features st_example))"
    by (simp add: st_example_def initial_state_def DEFAULT_FEATURES_def mk_default_def js_def)
  have b: "distinct (map (\<lambda>call. uid (fst call)) ?calls)"
    by (simp add: uid_def amb_example_def amb_later_def js_def)
  have c: "\<forall>call \<in> set ?calls. uid (fst call) \<notin> fid ` set (features st_example)"
    by (simp add: uid_def amb_example_def amb_later_def js_def st_example_def initial_state_def
        DEFAULT_FEATURES_def mk_default_def js_def)
  show ?thesis
    using a b c addFeature_ids_distinct [of ?calls st_example] by blast
qed

text \<open>
  Two calls that read the same digits from \<open>Math.random()\<close> within the same millisecond
  give two features with the same id.
\<close>

theorem addFeature_ids_counterexample:
  "\<not> distinct (map fid (features
     (add_features [(amb_example, (js ''Torch''), (js ''Flashlight control''), (js ''Custom'')),
                    (amb_example, (js ''Compass''), (js ''Heading display''), (js ''Sensors''))] st_example)))"
  by (simp add: addFeature_def)


section \<open>Tokens of a trimmed line\<close>

lemma split_ws_not_Nil: "split_ws s \<noteq> []"
proof (induction s)
  case Nil
  then show ?case by simp
next
  case (Cons c cs)
  then show ?case
    by (subst split_ws.simps) (auto simp del: split_ws.simps split: list.splits)
qed

lemma split_ws_space:
  "is_space c \<Longrightarrow>
   split_ws (c # cs) = (if cs \<noteq> [] \<and> is_space (hd cs) then split_ws cs else [] # split_ws cs)"
  by (cases cs) simp_all

lemma split_ws_letter:
  "\<not> is_space c \<Longrightarrow> split_ws (c # cs) = (c # hd (split_ws cs)) # tl (split_ws cs)"
  using split_ws_not_Nil [of cs] by (cases "split_ws cs") simp_all

lemma split_ws_later_empty:
  "[] \<in> set (tl (split_ws s)) \<Longrightarrow> s \<noteq> [] \<and> is_space (last s)"
proof (induction s)
  case Nil
  then show ?case by simp
next
  case (Cons c cs)
  show ?case
  proof (cases "is_space c")
    case False
    then have "[] \<in> set (tl (split_ws cs))"
      using Cons.prems False by (simp add: split_ws_letter del: split_ws.simps)
    then have "cs \<noteq> [] \<and> is_space (last cs)"
      by (rule Cons.IH)
    then show ?thesis by simp
  next
    case True
    show ?thesis
    proof (cases "cs = []")
      case True
      then show ?thesis using \<open>is_space c\<close> by simp
    next
      case ne: False
      have "[] \<in> set (tl (split_ws cs))"
      proof (cases "is_space (hd cs)")
        case True
        then show ?thesis
          using Cons.prems \<open>is_space c\<close> ne by (simp add: split_ws_space del: split_ws.simps)
      next
        case False
        obtain d ds where cs: "cs = d # ds"
          using ne by (cases cs) auto
        have "split_ws cs = (d # hd (split_ws ds)) # tl (split_ws ds)"
          using False cs split_ws_letter [of d ds] by (simp del: split_ws.simps)
        moreover have "[] \<in> set (split_ws cs)"
          using Cons.prems \<open>is_space c\<close> False ne
          by (simp add: split_ws_space del: split_ws.simps)
        ultimately show ?thesis by auto
      qed
      then have "cs \<noteq> [] \<and> is_space (last cs)"
        by (rule Cons.IH)
      then show ?thesis by simp
    qed
  qed
qed

lemma trim_last: "trim s \<noteq> [] \<Longrightarrow> \<not> is_space (last (trim s))"
proof -
  assume ne: "trim s \<noteq> []"
  let ?w = "dropWhile is_space (rev (dropWhile is_space s))"
  have w: "?w \<noteq> []" using ne by (simp add: trim_def)
  then have "\<not> is_space (hd ?w)" by (rule hd_dropWhile)
  moreover have "last (trim s) = hd ?w"
    using w by (simp add: trim_def last_rev)
  ultimately show ?thesis by simp
qed

text \<open>Every token after the first of a trimmed line is non-empty.\<close>

lemma args_nonempty: "split_ws (trim input) = v # args \<Longrightarrow> [] \<notin> set args"
proof
  assume p: "split_ws (trim input) = v # args" and e: "[] \<in> set args"
  then have "[] \<in> set (tl (split_ws (trim input)))" by simp
  then have "trim input \<noteq> [] \<and> is_space (last (trim input))"
    by (rule split_ws_later_empty)
  then show False using trim_last by blast
qed


section \<open>Dispatch on the verb\<close>

lemma dispatch_sync_email:
  "split_ws (trim input) = v # args \<Longrightarrow> toLowerCase (unicode_lower amb) v = (js ''sync-email'') \<Longrightarrow>
   processCommand amb input fs email = cmd_sync_email amb fs email"
  by (simp add: processCommand_def js_def)

lemma dispatch_enable:
  "split_ws (trim input) = v # args \<Longrightarrow> toLowerCase (unicode_lower amb) v = (js ''enable'') \<Longrightarrow>
   processCommand amb input fs email = cmd_enable (unicode_lower amb) args fs"
  by (simp add: processCommand_def js_def)

lemma dispatch_disable:
  "split_ws (trim input) = v # args \<Longrightarrow> toLowerCase (unicode_lower amb) v = (js ''disable'') \<Longrightarrow>
   processCommand amb input fs email = cmd_disable (unicode_lower amb) args fs"
  by (simp add: processCommand_def js_def)

lemma dispatch_add:
  "split_ws (trim input) = v # args \<Longrightarrow> toLowerCase (unicode_lower amb) v = (js ''add'') \<Longrightarrow>
   processCommand amb input fs email = cmd_add args"
  by (simp add: processCommand_def js_def)

text \<open>
  C7. For a line whose verb is \<open>sync-email\<close>: with an empty configured address the
  command fails, makes no call and leaves the store as it was; with a non-empty address it
  succeeds and its one call, \<open>addEmailQueue\<close>, puts exactly one item with \<open>sent = false\<close>
  at the end of the email queue and changes nothing else.
\<close>

theorem sync_email_enqueues_one:
  assumes "split_ws (trim input) = v # args"
    and "toLowerCase (unicode_lower amb) v = (js ''sync-email'')"
    and "processCommand amb input (features st) (emailAddress st) = (r, acts)"
  shows "(emailAddress st = [] \<longrightarrow>
            \<not> success r \<and> acts = [] \<and> perform_all amb' acts st = st) \<and>
         (emailAddress st \<noteq> [] \<longrightarrow>
            success r \<and>
            (\<exists>sub bod. acts = [AddEmailQueue sub bod] \<and>
               emailQueue (perform_all amb' acts st) =
                 emailQueue st @ [\<lparr>eid = uid amb', subject = sub, body = bod,
                                   createdAt = iso_time amb', sent = False\<rparr>]) \<and>
            features (perform_all amb' acts st) = features st \<and>
            gpsLogs (perform_all amb' acts st) = gpsLogs st \<and>
            photoLogs (perform_all amb' acts st) = photoLogs st \<and>
            commandLogs (perform_all amb' acts st) = commandLogs st \<and>
            emailAddress (perform_all amb' acts st) = emailAddress st \<and>
            isOnline (perform_all amb' acts st) = isOnline st)"
proof -
  have ra: "cmd_sync_email amb (features st) (emailAddress st) = (r, acts)"
    using assms dispatch_sync_email by metis
  show ?thesis
  proof (cases "emailAddress st = []")
    case True
    then have "r = failed (js ''No email configured. Set it in Settings first.'') \<and> acts = []"
      using ra by (simp add: cmd_sync_email_def)
    then show ?thesis
      using True by (simp add: perform_all_def success_failed)
  next
    case False
    then obtain bod where
      "r = ok ((js ''Email queued for: '') @ emailAddress st) \<and>
       acts = [AddEmailQueue (js ''Rubel Engine Data Sync'') bod]"
      using ra by (auto simp: cmd_sync_email_def)
    then show ?thesis
      using False by (simp add: perform_all_def success_ok addEmailQueue_def)
  qed
qed

lemma parse_sync_email: "split_ws (trim (js ''sync-email'')) = [(js ''sync-email'')] \<and>
   toLowerCase (unicode_lower amb_example) (js ''sync-email'') = (js ''sync-email'')"
  by (simp add: string_eval)

theorem sync_email_enqueues_one_witness:
  "\<not> success (fst (processCommand amb_example (js ''sync-email'') (features st_example) (emailAddress st_example))) \<and>
   length (emailQueue (perform_all amb_later
     (snd (processCommand amb_example (js ''sync-email'')
        (features (setEmailAddress (js ''a@b.com'') st_example))
        (emailAddress (setEmailAddress (js ''a@b.com'') st_example))))
     (setEmailAddress (js ''a@b.com'') st_example))) = 1 \<and>
   sent (last (emailQueue (perform_all amb_later
     (snd (processCommand amb_example (js ''sync-email'')
        (features (setEmailAddress (js ''a@b.com'') st_example))
        (emailAddress (setEmailAddress (js ''a@b.com'') st_example))))
     (setEmailAddress (js ''a@b.com'') st_example)))) = False"
proof -
  let ?st = "setEmailAddress (js ''a@b.com'') st_example"
  have e0: "emailAddress st_example = [] \<and> emailQueue st_example = []"
    by (simp add: st_example_def initial_state_def)
  have e1: "emailAddress ?st \<noteq> [] \<and> emailQueue ?st = []"
    by (simp add: setEmailAddress_def st_example_def initial_state_def js_def)
  obtain r0 a0 where p0:
    "processCommand amb_example (js ''sync-email'') (features st_example) (emailAddress st_example) = (r0, a0)"
    by (cases "processCommand amb_example (js ''sync-email'') (features st_example) (emailAddress st_example)")
  obtain r1 a1 where p1:
    "processCommand amb_example (js ''sync-email'') (features ?st) (emailAddress ?st) = (r1, a1)"
    by (cases "processCommand amb_example (js ''sync-email'') (features ?st) (emailAddress ?st)")
  have 0: "\<not> success r0"
    using sync_email_enqueues_one [OF _ _ p0, of "(js ''sync-email'')" "[]" amb_later]
      parse_sync_email e0 by simp
  have 1: "\<exists>sub bod. emailQueue (perform_all amb_later a1 ?st) =
      emailQueue ?st @ [\<lparr>eid = uid amb_later, subject = sub, body = bod,
                          createdAt = iso_time amb_later, sent = False\<rparr>]"
    using sync_email_enqueues_one [OF _ _ p1, of "(js ''sync-email'')" "[]" amb_later]
      parse_sync_email e1 by blast
  show ?thesis
    using 0 1 e1 p0 p1 by auto
qed


section \<open>Looking a feature up\<close>

lemma find_first: "(\<forall>x \<in> set pre. \<not> P x) \<Longrightarrow> P f \<Longrightarrow> List.find P (pre @ f # post) = Some f"
  by (induction pre) simp_all

lemma find_none: "(\<forall>x \<in> set fs. \<not> P x) \<Longrightarrow> List.find P fs = None"
  by (simp add: find_None_iff)

lemma toggle_first_distinct:
  assumes "features st = pre @ f # post" and "distinct (map fid (features st))"
  shows "features (toggleFeature (fid f) st) = pre @ f\<lparr>enabled := \<not> enabled f\<rparr> # post"
proof -
  have "fid f \<notin> fid ` set pre \<and> fid f \<notin> fid ` set post"
    using assms by auto
  then show ?thesis
    using assms(1) toggle_map_split [of f "fid f" pre post] by (simp add: toggleFeature_def)
qed

lemma cmd_enable_found:
  "a \<noteq> [] \<Longrightarrow> List.find (matches ul a (a # rest)) fs = Some f \<Longrightarrow>
   cmd_enable ul (a # rest) fs =
     (if enabled f then (ok (name f @ (js '' is already enabled.'')), [])
      else (ok ((js ''Enabled: '') @ name f), [ToggleFeature (fid f)]))"
  by (simp add: cmd_enable_def)

lemma cmd_disable_found:
  "a \<noteq> [] \<Longrightarrow> List.find (matches ul a (a # rest)) fs = Some f \<Longrightarrow>
   cmd_disable ul (a # rest) fs =
     (if \<not> enabled f then (ok (name f @ (js '' is already disabled.'')), [])
      else (ok ((js ''Disabled: '') @ name f), [ToggleFeature (fid f)]))"
  by (simp add: cmd_disable_def)

lemma cmd_enable_missing:
  "a \<noteq> [] \<Longrightarrow> List.find (matches ul a (a # rest)) fs = None \<Longrightarrow>
   cmd_enable ul (a # rest) fs = (failed ((js ''Feature not found: '') @ a), [])"
  by (simp add: cmd_enable_def)

lemma cmd_disable_missing:
  "a \<noteq> [] \<Longrightarrow> List.find (matches ul a (a # rest)) fs = None \<Longrightarrow>
   cmd_disable ul (a # rest) fs = (failed ((js ''Feature not found: '') @ a), [])"
  by (simp add: cmd_disable_def)

text \<open>
  C5, as the code has it. For a line whose verb is \<open>enable\<close> (\<open>want\<close> true) or \<open>disable\<close>
  (\<open>want\<close> false) and that has a first argument \<open>a\<close>: a feature matches when its id is
  \<open>a\<close> or its name, in lower case, is the lower-cased arguments joined by single spaces.
  If no feature matches, the command fails and makes no call. Otherwise the first
  matching feature \<open>f\<close> is the target and the command succeeds: when \<open>f\<close> is already in the
  wanted state, with the message "already enabled" or "already disabled" and no call; else
  with the single call \<open>toggleFeature(f.id)\<close>. That call flips every feature whose id is
  the id of \<open>f\<close> and no other feature; where the ids in the list are distinct it sets the
  flag of \<open>f\<close> to the wanted state and changes no other feature.
\<close>

theorem enable_disable_lookup:
  assumes "split_ws (trim input) = v # a # rest"
    and "(toLowerCase (unicode_lower amb) v = (js ''enable'') \<and> want) \<or> (toLowerCase (unicode_lower amb) v = (js ''disable'') \<and> \<not> want)"
    and "processCommand amb input fs email = (r, acts)"
  shows
    "((\<forall>x \<in> set fs. fid x \<noteq> a \<and> toLowerCase (unicode_lower amb) (name x) \<noteq> toLowerCase (unicode_lower amb) (join (js '' '') (a # rest)))
        \<longrightarrow> \<not> success r \<and> acts = []) \<and>
     (\<forall>pre f post.
        fs = pre @ f # post \<and>
        (\<forall>x \<in> set pre. fid x \<noteq> a \<and> toLowerCase (unicode_lower amb) (name x) \<noteq> toLowerCase (unicode_lower amb) (join (js '' '') (a # rest))) \<and>
        (fid f = a \<or> toLowerCase (unicode_lower amb) (name f) = toLowerCase (unicode_lower amb) (join (js '' '') (a # rest)))
        \<longrightarrow>
        success r \<and>
        (enabled f = want \<longrightarrow>
           acts = [] \<and>
           message r = name f @ (if want then (js '' is already enabled.'') else (js '' is already disabled.''))) \<and>
        (enabled f \<noteq> want \<longrightarrow>
           acts = [ToggleFeature (fid f)] \<and>
           message r = (if want then (js ''Enabled: '') else (js ''Disabled: '')) @ name f \<and>
           (\<forall>st. perform_all amb' acts st = toggleFeature (fid f) st) \<and>
           (\<forall>st. features st = fs \<longrightarrow>
              length (features (toggleFeature (fid f) st)) = length fs \<and>
              (\<forall>k < length fs.
                 features (toggleFeature (fid f) st) ! k =
                   (if fid (fs ! k) = fid f then (fs ! k)\<lparr>enabled := \<not> enabled (fs ! k)\<rparr>
                    else fs ! k))) \<and>
           (\<forall>st. features st = fs \<and> distinct (map fid fs) \<longrightarrow>
              features (toggleFeature (fid f) st) = pre @ f\<lparr>enabled := want\<rparr> # post)))"
proof -
  let ?P = "matches (unicode_lower amb) a (a # rest)"
  have a: "a \<noteq> []"
    using args_nonempty [OF assms(1)] by auto
  have run: "(r, acts) =
      (if want then cmd_enable (unicode_lower amb) (a # rest) fs
       else cmd_disable (unicode_lower amb) (a # rest) fs)"
    using assms dispatch_enable [of input v "a # rest" amb fs email]
      dispatch_disable [of input v "a # rest" amb fs email]
    by auto
  have missing: "\<not> success r \<and> acts = []"
    if "\<forall>x \<in> set fs. fid x \<noteq> a \<and> toLowerCase (unicode_lower amb) (name x) \<noteq> toLowerCase (unicode_lower amb) (join (js '' '') (a # rest))"
  proof -
    have none: "List.find ?P fs = None"
      using that by (intro find_none) (simp add: matches_def)
    then have "(r, acts) = (failed ((js ''Feature not found: '') @ a), [])"
      using run cmd_enable_missing [OF a none] cmd_disable_missing [OF a none]
      by (cases want) simp_all
    then show ?thesis by (simp add: success_failed)
  qed
  have found:
    "success r \<and>
     (enabled f = want \<longrightarrow>
        acts = [] \<and>
        message r = name f @ (if want then (js '' is already enabled.'') else (js '' is already disabled.''))) \<and>
     (enabled f \<noteq> want \<longrightarrow>
        acts = [ToggleFeature (fid f)] \<and>
        message r = (if want then (js ''Enabled: '') else (js ''Disabled: '')) @ name f \<and>
        (\<forall>st. perform_all amb' acts st = toggleFeature (fid f) st) \<and>
        (\<forall>st. features st = fs \<longrightarrow>
           length (features (toggleFeature (fid f) st)) = length fs \<and>
           (\<forall>k < length fs.
              features (toggleFeature (fid f) st) ! k =
                (if fid (fs ! k) = fid f then (fs ! k)\<lparr>enabled := \<not> enabled (fs ! k)\<rparr>
                 else fs ! k))) \<and>
        (\<forall>st. features st = fs \<and> distinct (map fid fs) \<longrightarrow>
           features (toggleFeature (fid f) st) = pre @ f\<lparr>enabled := want\<rparr> # post))"
    if dec: "fs = pre @ f # post"
      and pre: "\<forall>x \<in> set pre. fid x \<noteq> a \<and> toLowerCase (unicode_lower amb) (name x) \<noteq> toLowerCase (unicode_lower amb) (join (js '' '') (a # rest))"
      and f: "fid f = a \<or> toLowerCase (unicode_lower amb) (name f) = toLowerCase (unicode_lower amb) (join (js '' '') (a # rest))"
    for pre f post
  proof -
    have "List.find ?P (pre @ f # post) = Some f"
      using pre f by (intro find_first) (simp_all add: matches_def)
    then have fnd: "List.find ?P fs = Some f"
      using dec by simp
    have res: "(r, acts) =
        (if enabled f = want
         then (ok (name f @ (if want then (js '' is already enabled.'') else (js '' is already disabled.''))), [])
         else (ok ((if want then (js ''Enabled: '') else (js ''Disabled: '')) @ name f), [ToggleFeature (fid f)]))"
      using run cmd_enable_found [OF a fnd] cmd_disable_found [OF a fnd]
      by (cases want) simp_all
    have flip: "features (toggleFeature (fid f) st) = pre @ f\<lparr>enabled := want\<rparr> # post"
      if "features st = fs" "distinct (map fid fs)" "enabled f \<noteq> want" for st
    proof -
      have "features (toggleFeature (fid f) st) = pre @ f\<lparr>enabled := \<not> enabled f\<rparr> # post"
        using that dec toggle_first_distinct [of st pre f post] by simp
      moreover have "(\<not> enabled f) = want"
        using that by auto
      ultimately show ?thesis by simp
    qed
    show ?thesis
    proof (cases "enabled f = want")
      case True
      then show ?thesis using res by (simp add: success_ok)
    next
      case False
      then have "r = ok ((if want then (js ''Enabled: '') else (js ''Disabled: '')) @ name f) \<and>
          acts = [ToggleFeature (fid f)]"
        using res by simp
      moreover have "length (features (toggleFeature (fid f) st)) = length fs \<and>
          (\<forall>k < length fs.
             features (toggleFeature (fid f) st) ! k =
               (if fid (fs ! k) = fid f then (fs ! k)\<lparr>enabled := \<not> enabled (fs ! k)\<rparr>
                else fs ! k))"
        if "features st = fs" for st
        using that by (auto simp: toggleFeature_def)
      ultimately show ?thesis
        using False flip by (simp add: success_ok perform_all_def)
    qed
  qed
  show ?thesis
    using missing found by blast
qed


lemmas example_store = st_example_def initial_state_def DEFAULT_FEATURES_def mk_default_def js_def

lemma parse_enable_by_name:
  "split_ws (trim (js ''enable auto GPS log'')) = [(js ''enable''), (js ''auto''), (js ''GPS''), (js ''log'')] \<and>
   toLowerCase (unicode_lower amb_example) (js ''enable'') = (js ''enable'') \<and>
   toLowerCase (unicode_lower amb_example) (join (js '' '') [(js ''auto''), (js ''GPS''), (js ''log'')]) = (js ''auto gps log'')"
  by (simp add: string_eval)

lemma parse_disable_missing:
  "split_ws (trim (js ''disable nothing-here'')) = [(js ''disable''), (js ''nothing-here'')] \<and>
   toLowerCase (unicode_lower amb_example) (js ''disable'') = (js ''disable'') \<and>
   toLowerCase (unicode_lower amb_example) (join (js '' '') [(js ''nothing-here'')]) = (js ''nothing-here'')"
  by (simp add: string_eval)

lemma parse_enable_by_id:
  "split_ws (trim (js ''Enable f001'')) = [(js ''Enable''), (js ''f001'')] \<and>
   toLowerCase (unicode_lower amb_example) (js ''Enable'') = (js ''enable'') \<and>
   toLowerCase (unicode_lower amb_example) (join (js '' '') [(js ''f001'')]) = (js ''f001'')"
  by (simp add: string_eval)

theorem enable_disable_lookup_witness:
  "snd (processCommand amb_example (js ''enable auto GPS log'') (features st_example) []) =
     [ToggleFeature (js ''f006'')] \<and>
   features (toggleFeature (js ''f006'') st_example) =
     take 5 (features st_example) @ (features st_example ! 5)\<lparr>enabled := True\<rparr>
       # drop 6 (features st_example) \<and>
   \<not> success (fst (processCommand amb_example (js ''disable nothing-here'') (features st_example) [])) \<and>
   snd (processCommand amb_example (js ''Enable f001'') (features st_example) []) = []"
proof -
  let ?fs = "features st_example"
  let ?pre = "take 5 ?fs" and ?f = "?fs ! 5" and ?post = "drop 6 ?fs"
  have len: "length ?fs = 10"
    by (simp add: example_store)
  have dec: "?fs = ?pre @ ?f # ?post"
    using len id_take_nth_drop [of 5 ?fs] by simp
  have f: "fid ?f = (js ''f006'') \<and> toLowerCase (unicode_lower amb_example) (name ?f) = (js ''auto gps log'') \<and> \<not> enabled ?f"
    by (simp add: example_store string_eval)
  have pre: "\<forall>x \<in> set ?pre. fid x \<noteq> (js ''auto'') \<and> toLowerCase (unicode_lower amb_example) (name x) \<noteq> (js ''auto gps log'')"
    by (simp add: example_store string_eval)
  have dist: "distinct (map fid ?fs)"
    by (simp add: example_store)
  obtain r1 a1 where p1:
    "processCommand amb_example (js ''enable auto GPS log'') ?fs [] = (r1, a1)"
    by (cases "processCommand amb_example (js ''enable auto GPS log'') ?fs []")
  have 1: "a1 = [ToggleFeature (fid ?f)] \<and>
           features (toggleFeature (fid ?f) st_example) = ?pre @ ?f\<lparr>enabled := True\<rparr> # ?post"
    using enable_disable_lookup [where input = "js ''enable auto GPS log''" and v = "js ''enable''"
        and a = "js ''auto''" and rest = "[js ''GPS'', js ''log'']" and want = True
        and amb = amb_example and fs = ?fs and email = "[]" and r = r1 and acts = a1
        and amb' = amb_example]
      parse_enable_by_name p1 dec f pre dist
    by (metis (no_types, lifting))
  have none: "\<forall>x \<in> set ?fs. fid x \<noteq> (js ''nothing-here'') \<and> toLowerCase (unicode_lower amb_example) (name x) \<noteq> (js ''nothing-here'')"
    by (simp add: example_store string_eval)
  obtain r2 a2 where p2:
    "processCommand amb_example (js ''disable nothing-here'') ?fs [] = (r2, a2)"
    by (cases "processCommand amb_example (js ''disable nothing-here'') ?fs []")
  have 2: "\<not> success r2"
    using enable_disable_lookup [where input = "js ''disable nothing-here''" and v = "js ''disable''"
        and a = "js ''nothing-here''" and rest = "[]" and want = False
        and amb = amb_example and fs = ?fs and email = "[]" and r = r2 and acts = a2
        and amb' = amb_example]
      parse_disable_missing p2 none
    by (metis (no_types, lifting))
  have dec0: "?fs = [] @ (?fs ! 0) # drop 1 ?fs"
    using len by (cases ?fs) simp_all
  have f0: "fid (?fs ! 0) = (js ''f001'') \<and> enabled (?fs ! 0)"
    by (simp add: example_store)
  obtain r3 a3 where p3:
    "processCommand amb_example (js ''Enable f001'') ?fs [] = (r3, a3)"
    by (cases "processCommand amb_example (js ''Enable f001'') ?fs []")
  have 3: "a3 = []"
    using enable_disable_lookup [where input = "js ''Enable f001''" and v = "js ''Enable''"
        and a = "js ''f001''" and rest = "[]" and want = True
        and amb = amb_example and fs = ?fs and email = "[]" and r = r3 and acts = a3
        and amb' = amb_example]
      parse_enable_by_id p3 dec0 f0
    by (metis (no_types, lifting) empty_iff list.set(1))
  show ?thesis
    using 1 2 3 p1 p2 p3 f by simp
qed

text \<open>
  With two features of the same id the call flips both. In \<open>st_twins\<close> the line
  \<open>enable torch\<close> matches the feature \<open>Torch\<close> by name; the feature \<open>Compass\<close> does not
  match, has the same id, and is enabled by the call as well.
\<close>

theorem enable_shared_id_counterexample:
  "snd (processCommand amb_example (js ''enable torch'') (features st_twins) []) =
     [ToggleFeature (fid (features st_twins ! 10))] \<and>
   name (features st_twins ! 10) = js ''Torch'' \<and>
   name (features st_twins ! 11) = js ''Compass'' \<and>
   \<not> matches (unicode_lower amb_example) (js ''torch'') [js ''torch''] (features st_twins ! 11) \<and>
   \<not> enabled (features st_twins ! 11) \<and>
   enabled (features (perform_all amb_example
     (snd (processCommand amb_example (js ''enable torch'') (features st_twins) []))
     st_twins) ! 11)"
  by (simp add: st_twins_def processCommand_def cmd_enable_def matches_def string_eval
      example_store perform_all_def toggleFeature_def addFeature_def uid_def amb_example_def)


section \<open>The add command\<close>

lemma cmd_add_short:
  "length (map trim (split_on pipe (join (js '' '') args))) < 2 \<Longrightarrow>
   cmd_add args = (failed (js ''Usage: add <name> | <description> | <category>''), [])"
  by (cases "map trim (split_on pipe (join (js '' '') args))" rule: remdups_adj.cases)
    (simp_all add: cmd_add_def)

lemma cmd_add_two:
  "map trim (split_on pipe (join (js '' '') args)) = n # d # others \<Longrightarrow>
   cmd_add args =
     (if n = [] \<or> d = [] then (failed (js ''Name and description are required.''), [])
      else (ok ((js ''Feature added: '') @ n @ (js '' ['') @ (case others of [] \<Rightarrow> (js ''Custom'') | c # _ \<Rightarrow> c) @ (js '']'')),
            [AddFeature n d (case others of [] \<Rightarrow> (js ''Custom'') | c # _ \<Rightarrow> c)]))"
  by (simp add: cmd_add_def Let_def)

text \<open>
  C2, as the code has it. For a line whose verb is \<open>add\<close>, the arguments joined by single
  spaces are split on \<open>|\<close> and every segment is trimmed. The command fails and makes no
  call when there are fewer than two segments or when the first or the second segment is
  empty. Otherwise it succeeds and its one call, \<open>addFeature\<close>, appends the feature with
  the first segment as name, the second as description and \<open>enabled = false\<close>; the
  category is \<open>Custom\<close> when there is no third segment, and the third segment when that
  is present and non-empty.
\<close>

theorem add_command_segments:
  assumes "split_ws (trim input) = v # args"
    and "toLowerCase (unicode_lower amb) v = (js ''add'')"
    and "segs = map trim (split_on pipe (join (js '' '') args))"
    and "processCommand amb input fs email = (r, acts)"
  shows
    "(length segs < 2 \<or> segs ! 0 = [] \<or> segs ! 1 = [] \<longrightarrow> \<not> success r \<and> acts = []) \<and>
     (2 \<le> length segs \<and> segs ! 0 \<noteq> [] \<and> segs ! 1 \<noteq> [] \<longrightarrow>
        success r \<and>
        (\<exists>cat. acts = [AddFeature (segs ! 0) (segs ! 1) cat] \<and>
           (length segs = 2 \<longrightarrow> cat = (js ''Custom'')) \<and>
           (2 < length segs \<and> segs ! 2 \<noteq> [] \<longrightarrow> cat = segs ! 2) \<and>
           (\<forall>st. features (perform_all amb' acts st) =
              features st @ [\<lparr>fid = uid amb', name = segs ! 0, description = segs ! 1,
                               enabled = False, category = cat, addedAt = iso_time amb'\<rparr>])))"
proof -
  have run: "cmd_add args = (r, acts)"
    using assms dispatch_add [of input v args amb fs email] by simp
  show ?thesis
  proof (cases "length segs < 2")
    case True
    then have "(r, acts) = (failed (js ''Usage: add <name> | <description> | <category>''), [])"
      using run cmd_add_short [of args] assms(3) by simp
    then show ?thesis
      using True by (simp add: success_failed)
  next
    case False
    then obtain n d others where segs: "segs = n # d # others"
      by (cases segs rule: remdups_adj.cases) auto
    let ?cat = "case others of [] \<Rightarrow> (js ''Custom'') | c # _ \<Rightarrow> c"
    have res: "(r, acts) =
        (if n = [] \<or> d = [] then (failed (js ''Name and description are required.''), [])
         else (ok ((js ''Feature added: '') @ n @ (js '' ['') @ ?cat @ (js '']'')), [AddFeature n d ?cat]))"
      using run cmd_add_two [of args n d others] assms(3) segs by simp
    show ?thesis
    proof (cases "n = [] \<or> d = []")
      case True
      then show ?thesis
        using res segs by (auto simp: success_failed)
    next
      case ok: False
      then have ra: "r = ok ((js ''Feature added: '') @ n @ (js '' ['') @ ?cat @ (js '']'')) \<and>
          acts = [AddFeature n d ?cat]"
        using res by simp
      have cat: "(length segs = 2 \<longrightarrow> ?cat = (js ''Custom'')) \<and>
          (2 < length segs \<and> segs ! 2 \<noteq> [] \<longrightarrow> ?cat = segs ! 2)"
        using segs by (cases others) simp_all
      have eff: "\<forall>st. features (perform_all amb' acts st) =
          features st @ [\<lparr>fid = uid amb', name = n, description = d, enabled = False,
                           category = ?cat, addedAt = iso_time amb'\<rparr>]"
        using ra by (simp add: perform_all_def addFeature_def)
      have "\<exists>cat. acts = [AddFeature (segs ! 0) (segs ! 1) cat] \<and>
           (length segs = 2 \<longrightarrow> cat = (js ''Custom'')) \<and>
           (2 < length segs \<and> segs ! 2 \<noteq> [] \<longrightarrow> cat = segs ! 2) \<and>
           (\<forall>st. features (perform_all amb' acts st) =
              features st @ [\<lparr>fid = uid amb', name = segs ! 0, description = segs ! 1,
                               enabled = False, category = cat, addedAt = iso_time amb'\<rparr>])"
        using ra cat eff segs by (intro exI [of _ ?cat]) simp
      then show ?thesis
        using ok ra segs by (simp add: success_ok)
    qed
  qed
qed

lemma parse_add_three:
  "split_ws (trim (js ''add foo|bar|baz'')) = [js ''add'', js ''foo|bar|baz'']"
  "toLowerCase ul (js ''add'') = js ''add''"
  "[js ''foo'', js ''bar'', js ''baz''] = map trim (split_on pipe (join (js '' '') [js ''foo|bar|baz'']))"
  by (simp_all add: string_eval)

lemma parse_add_two:
  "split_ws (trim (js ''add foo | bar'')) = [js ''add'', js ''foo'', js ''|'', js ''bar'']"
  "[js ''foo'', js ''bar''] = map trim (split_on pipe (join (js '' '') [js ''foo'', js ''|'', js ''bar'']))"
  by (simp_all add: string_eval)

lemma parse_add_one:
  "split_ws (trim (js ''add foo'')) = [js ''add'', js ''foo'']"
  "[js ''foo''] = map trim (split_on pipe (join (js '' '') [js ''foo'']))"
  by (simp_all add: string_eval)

lemma segments_nonempty: "js ''foo'' \<noteq> []" "js ''bar'' \<noteq> []" "js ''baz'' \<noteq> []"
  by (simp_all add: js_def)

theorem add_command_segments_witness:
  "snd (processCommand amb_example (js ''add foo|bar|baz'') (features st_example) []) =
     [AddFeature (js ''foo'') (js ''bar'') (js ''baz'')] \<and>
   snd (processCommand amb_example (js ''add foo | bar'') (features st_example) []) =
     [AddFeature (js ''foo'') (js ''bar'') (js ''Custom'')] \<and>
   \<not> success (fst (processCommand amb_example (js ''add foo'') (features st_example) [])) \<and>
   snd (processCommand amb_example (js ''add foo'') (features st_example) []) = []"
proof -
  let ?fs = "features st_example"
  obtain r1 a1 where p1: "processCommand amb_example (js ''add foo|bar|baz'') ?fs [] = (r1, a1)"
    by (cases "processCommand amb_example (js ''add foo|bar|baz'') ?fs []")
  obtain r2 a2 where p2: "processCommand amb_example (js ''add foo | bar'') ?fs [] = (r2, a2)"
    by (cases "processCommand amb_example (js ''add foo | bar'') ?fs []")
  obtain r3 a3 where p3: "processCommand amb_example (js ''add foo'') ?fs [] = (r3, a3)"
    by (cases "processCommand amb_example (js ''add foo'') ?fs []")
  have "\<exists>cat. a1 = [AddFeature (js ''foo'') (js ''bar'') cat] \<and> cat = js ''baz''"
    using add_command_segments [OF parse_add_three(1) parse_add_three(2) parse_add_three(3) p1,
        of amb_example]
      segments_nonempty
    by simp
  then have 1: "a1 = [AddFeature (js ''foo'') (js ''bar'') (js ''baz'')]"
    by blast
  have "\<exists>cat. a2 = [AddFeature (js ''foo'') (js ''bar'') cat] \<and> cat = js ''Custom''"
    using add_command_segments [OF parse_add_two(1) parse_add_three(2) parse_add_two(2) p2,
        of amb_example]
      segments_nonempty
    by simp
  then have 2: "a2 = [AddFeature (js ''foo'') (js ''bar'') (js ''Custom'')]"
    by blast
  have 3: "\<not> success r3 \<and> a3 = []"
    using add_command_segments [OF parse_add_one(1) parse_add_three(2) parse_add_one(2) p3,
        of amb_example]
    by simp
  show ?thesis
    using 1 2 3 p1 p2 p3 by simp
qed

text \<open>
  Two lines on which the behaviour differs from "two non-empty segments suffice" and from
  "an empty third segment gives \<open>Custom\<close>": \<open>add |b|c\<close> has two non-empty segments and
  fails without a call; \<open>add foo|bar|\<close> has an empty third segment and calls \<open>addFeature\<close>
  with the empty category.
\<close>

theorem add_command_counterexample:
  "map trim (split_on pipe (js ''|b|c'')) = [(js ''''), (js ''b''), (js ''c'')] \<and>
   processCommand amb_example (js ''add |b|c'') (features st_example) [] =
     (failed (js ''Name and description are required.''), []) \<and>
   map trim (split_on pipe (js ''foo|bar|'')) = [(js ''foo''), (js ''bar''), (js '''')] \<and>
   snd (processCommand amb_example (js ''add foo|bar|'') (features st_example) []) =
     [AddFeature (js ''foo'') (js ''bar'') (js '''')]"
  by (simp add: processCommand_def cmd_add_def string_eval)

text \<open>
  The admin form, given the same three fields, takes \<open>Custom\<close> for the empty category.
\<close>

lemma admin_form_empty_category:
  "addNewFeature amb (js ''foo'') (js ''bar'') (js '''') st = addFeature amb (js ''foo'') (js ''bar'') (js ''Custom'') st"
  by (simp add: addNewFeature_def string_eval)

section \<open>Code units beyond ASCII\<close>

text \<open>
  A no-break space (U+00A0) is white space: it separates tokens and is trimmed. The line
  \<open>add foo|_|x\<close>, with a no-break space in the place of \<open>_\<close>, has an empty description
  and fails; the admin form does not add a feature whose name is a no-break space.
\<close>

lemma add_no_break_space:
  "processCommand amb (js ''add foo|'' @ [0xA0] @ js ''|x'') fs email =
     (failed (js ''Name and description are required.''), [])"
  by (simp add: processCommand_def cmd_add_def string_eval)

lemma admin_form_no_break_space: "addNewFeature amb [0xA0] d c st = st"
  by (simp add: addNewFeature_def string_eval)

text \<open>
  Names are compared through the case mapping of the engine: where it maps both \<open>CAF\<close>
  followed by U+00C9 and \<open>Caf\<close> followed by U+00E9 to the latter in lower case, the line
  \<open>enable CAF\<close> followed by U+00C9 finds the feature of that name.
\<close>

lemma enable_non_ascii_name:
  assumes "unicode_lower amb (js ''CAF'' @ [0xC9]) = js ''caf'' @ [0xE9]"
    and "unicode_lower amb (js ''Caf'' @ [0xE9]) = js ''caf'' @ [0xE9]"
  shows "snd (processCommand amb (js ''enable CAF'' @ [0xC9])
           [\<lparr>fid = js ''f011'', name = js ''Caf'' @ [0xE9], description = d, enabled = False,
             category = c, addedAt = t\<rparr>] email) = [ToggleFeature (js ''f011'')]"
  using assms by (simp add: processCommand_def cmd_enable_def matches_def string_eval)

end
